theory Spec2Isabelle
  imports Main "HOL-Library.Sublist"
begin

section \<open>Errors\<close>

text \<open>
  Every \<^verbatim>\<open>throw\<close> of the TypeScript is a value of this type, and a function that can throw
  returns \<open>error + 'a\<close> with the error on the left.
  \<^item> \<open>InvalidArgument name\<close> is the validation error raised by \<^verbatim>\<open>throwValidationError\<close> for
    the parameter \<open>name\<close>;
  \<^item> \<open>TypeError\<close> is the exception of the platform (\<^verbatim>\<open>new URL\<close> on an invalid URL,
    \<^verbatim>\<open>reduce\<close> of an empty array with no initial value);
  \<^item> \<open>RangeError\<close> is the exception of \<^verbatim>\<open>new Array(len)\<close> for a length that is not an integer
    from 0 to 4294967295 (2 to the power 32, less 1).
\<close>

datatype error = InvalidArgument string | TypeError | RangeError

text \<open>
  Modelled from the spec: \<^verbatim>\<open>throwValidationError\<close> of \<^verbatim>\<open>src/utils/validation.ts\<close> is
  imported by \<^verbatim>\<open>upload.ts\<close> and \<^verbatim>\<open>utils/url.ts\<close>, but the file is missing from the source
  tree. The spec says of each check that calls it that it fails with an \<^verbatim>\<open>InvalidArgument\<close>
  error, fatal and reported immediately; so the call always raises. Only the parameter name
  is kept; the message text is not modelled.
\<close>

definition throwValidationError :: "string \<Rightarrow> error" where
  "throwValidationError name = InvalidArgument name"

section \<open>Upload partitioner (\<^verbatim>\<open>splitSizeIntoChunkAlignedParts\<close>, upload.ts)\<close>

text \<open>
  Sizes and counts are JavaScript numbers, that is doubles. The numbers of the model are the
  safe integers, from -9007199254740991 to 9007199254740991 (2 to the power 53, less 1): on them the comparisons, sums and
  remainders of doubles are those of the integers, and \<^verbatim>\<open>Math.floor(a / b)\<close> is \<open>a div b\<close>, the
  rounded-down quotient (\<open>b\<close> is not 0 where the function divides). Beyond them the program
  computes with rounding, which this embedding does not describe: where an argument is not a
  safe integer the model gives no answer, the value \<open>None\<close>. For safe arguments that pass the
  checks every number the function computes lies between 0 and \<open>totalSize\<close>, so it is safe
  too. \<^verbatim>\<open>a % b\<close> is the remainder that takes the sign of the dividend.
\<close>

definition MAX_SAFE_INTEGER :: int where
  "MAX_SAFE_INTEGER = 2 ^ 53 - 1"

definition isSafeInteger :: "int \<Rightarrow> bool" where
  "isSafeInteger n = (- MAX_SAFE_INTEGER \<le> n \<and> n \<le> MAX_SAFE_INTEGER)"

text \<open>
  \<^verbatim>\<open>new Array(len).fill(v)\<close>: an array of \<open>len\<close> copies of \<open>v\<close>; the constructor throws a
  RangeError unless the integer \<open>len\<close> is from 0 to 4294967295 (2 to the power 32, less 1).
\<close>

definition new_Array_fill :: "int \<Rightarrow> 'a \<Rightarrow> error + 'a list" where
  "new_Array_fill len v =
     (if 0 \<le> len \<and> len \<le> 2 ^ 32 - 1 then Inr (replicate (nat len) v) else Inl RangeError)"

definition js_rem :: "int \<Rightarrow> int \<Rightarrow> int" where
  "js_rem a b = sgn a * (\<bar>a\<bar> mod \<bar>b\<bar>)"

record part =
  start :: int
  end' :: int

text \<open>
  The first loop: \<^verbatim>\<open>for (let i = 0; i < numFullChunks; i++) partSizes[i % partCount] += chunkSize\<close>.
  An assignment beyond the end of a JavaScript array would lengthen it; here the index is
  inside the array whenever \<open>0 \<le> i\<close> and \<open>1 \<le> partCount\<close>, the only way the loop is reached
  (lemma \<open>assignChunks_index\<close>). The same holds for the index of the leftover and for the
  reads of the second loop (lemmas \<open>lastIndex_in_range\<close>, \<open>convertSizes_index\<close>).
\<close>

function assignChunks :: "int \<Rightarrow> int \<Rightarrow> int \<Rightarrow> int \<Rightarrow> int list \<Rightarrow> int list" where
  "assignChunks i numFullChunks partCount chunkSize partSizes =
     (if i < numFullChunks
      then assignChunks (i + 1) numFullChunks partCount chunkSize
             (partSizes[nat (js_rem i partCount) := partSizes ! nat (js_rem i partCount) + chunkSize])
      else partSizes)"
  by pat_completeness auto
termination
  by (relation "measure (\<lambda>(i, n, p, c, s). nat (n - i))") auto

text \<open>
  The second loop pushes \<^verbatim>\<open>{start: lastBoundary, end: lastBoundary + partSizes[i]}\<close> and then
  reads the new boundary back from \<^verbatim>\<open>parts[i].end\<close>.
\<close>

function convertSizes :: "int \<Rightarrow> int \<Rightarrow> int list \<Rightarrow> int \<Rightarrow> part list \<Rightarrow> part list" where
  "convertSizes i partCount partSizes lastBoundary parts =
     (if i < partCount
      then let parts' = parts @ [\<lparr>start = lastBoundary, end' = lastBoundary + partSizes ! nat i\<rparr>]
           in convertSizes (i + 1) partCount partSizes (end' (parts' ! nat i)) parts'
      else parts)"
  by pat_completeness auto
termination
  by (relation "measure (\<lambda>(i, n, s, b, p). nat (n - i))") auto

declare assignChunks.simps [simp del]
declare convertSizes.simps [simp del]

definition splitSizeIntoChunkAlignedParts ::
  "int \<Rightarrow> int \<Rightarrow> int \<Rightarrow> (error + part list) option" where
  "splitSizeIntoChunkAlignedParts totalSize partCount chunkSize =
     (if \<not> (isSafeInteger totalSize \<and> isSafeInteger partCount \<and> isSafeInteger chunkSize)
      then None
      else if partCount < 1 then Some (Inl (throwValidationError ''partCount''))
      else if chunkSize < 1 then Some (Inl (throwValidationError ''chunkSize''))
      else if totalSize \<le> chunkSize then Some (Inl (throwValidationError ''totalSize''))
      else
        case new_Array_fill partCount 0 of
          Inl e \<Rightarrow> Some (Inl e)
        | Inr partSizes \<Rightarrow>
            let numFullChunks = totalSize div chunkSize;
                partSizes = assignChunks 0 numFullChunks partCount chunkSize partSizes;
                leftover = js_rem totalSize chunkSize;
                partSizes =
                  (if leftover > 0
                   then let lastIndex = min numFullChunks (partCount - 1)
                        in partSizes[nat lastIndex := partSizes ! nat lastIndex + leftover]
                   else partSizes)
            in Some (Inr (convertSizes 0 partCount partSizes 0 [])))"

subsection \<open>Closed forms of the two loops\<close>

text \<open>\<open>hits i n p k\<close> counts the rounds \<open>j\<close> of the first loop, from \<open>i\<close> up to \<open>n - 1\<close>, that
  land in bucket \<open>k\<close>.\<close>

definition hits :: "int \<Rightarrow> int \<Rightarrow> int \<Rightarrow> nat \<Rightarrow> nat" where
  "hits i n p k = length (filter (\<lambda>j. j mod p = int k) [i..n - 1])"

text \<open>The ranges that the running sum of a list of sizes gives, from boundary \<open>b\<close>.\<close>

fun ranges_from :: "int \<Rightarrow> int list \<Rightarrow> part list" where
  "ranges_from b [] = []"
| "ranges_from b (s # ss) = \<lparr>start = b, end' = b + s\<rparr> # ranges_from (b + s) ss"

text \<open>The bucket sizes after the leftover has been added.\<close>

definition final_sizes :: "int \<Rightarrow> int \<Rightarrow> int \<Rightarrow> int list" where
  "final_sizes totalSize partCount chunkSize =
     (let s = assignChunks 0 (totalSize div chunkSize) partCount chunkSize (replicate (nat partCount) 0)
      in if totalSize mod chunkSize > 0
         then s[nat (min (totalSize div chunkSize) (partCount - 1)) :=
                  s ! nat (min (totalSize div chunkSize) (partCount - 1)) + totalSize mod chunkSize]
         else s)"

definition part_size :: "part \<Rightarrow> int" where
  "part_size q = end' q - start q"

section \<open>URL algebra (utils/url.ts)\<close>

subsection \<open>Strings\<close>

text \<open>
  Strings are \<open>string\<close>, lists of 8-bit characters. \<^verbatim>\<open>toLowerCase\<close> and the case folding of a
  regular expression with the flag \<^verbatim>\<open>i\<close> are modelled on the ASCII letters; without the flag
  \<^verbatim>\<open>u\<close> no character outside ASCII folds to an ASCII one.
\<close>

definition toUpperCase_char :: "char \<Rightarrow> char" where
  "toUpperCase_char c =
     (let n = (of_char c :: nat) in if 97 \<le> n \<and> n \<le> 122 then char_of (n - 32) else c)"

definition toLowerCase_char :: "char \<Rightarrow> char" where
  "toLowerCase_char c =
     (let n = (of_char c :: nat) in if 65 \<le> n \<and> n \<le> 90 then char_of (n + 32) else c)"

definition toLowerCase :: "string \<Rightarrow> string" where
  "toLowerCase s = map toLowerCase_char s"

definition startsWith :: "string \<Rightarrow> string \<Rightarrow> bool" where
  "startsWith str p = prefix p str"

definition endsWith :: "string \<Rightarrow> string \<Rightarrow> bool" where
  "endsWith str sfx = suffix sfx str"

subsection \<open>Regular expressions\<close>

text \<open>
  The fragment of regular expressions that \<^verbatim>\<open>/^https?:(\/\/)?/i\<close> is written in: a character,
  a sequence, an optional part. \<open>re_match r s\<close> lists what is left of \<open>s\<close> after each way of
  matching \<open>r\<close> at its start, the greedy one first; characters compare as the flag \<^verbatim>\<open>i\<close>
  makes them. \<^verbatim>\<open>test\<close> on a pattern anchored with \<^verbatim>\<open>^\<close> asks for one such way.
\<close>

datatype regex = Chr char | Cat regex regex | Opt regex

fun re_match :: "regex \<Rightarrow> string \<Rightarrow> string list" where
  "re_match (Chr c) s =
     (case s of [] \<Rightarrow> []
      | x # xs \<Rightarrow> if toUpperCase_char x = toUpperCase_char c then [xs] else [])"
| "re_match (Cat a b) s = concat (map (re_match b) (re_match a s))"
| "re_match (Opt a) s = re_match a s @ [s]"

definition re_test_anchored :: "regex \<Rightarrow> string \<Rightarrow> bool" where
  "re_test_anchored r s = (re_match r s \<noteq> [])"

text \<open>The pattern \<^verbatim>\<open>/^https?:(\/\/)?/i\<close> of \<^verbatim>\<open>ensureUrlPrefix\<close>.\<close>

definition scheme_regex :: regex where
  "scheme_regex =
     Cat (Chr CHR ''h'') (Cat (Chr CHR ''t'') (Cat (Chr CHR ''t'') (Cat (Chr CHR ''p'')
       (Cat (Opt (Chr CHR ''s'')) (Cat (Chr CHR '':'')
         (Opt (Cat (Chr CHR ''/'') (Chr CHR ''/''))))))))"

subsection \<open>Helpers of utils/string.ts\<close>

text \<open>
  Modelled from the spec: \<^verbatim>\<open>trimSuffix\<close> of \<^verbatim>\<open>src/utils/string.ts\<close>, imported by
  \<^verbatim>\<open>utils/url.ts\<close>; the file is missing from the source tree. The spec has it remove
  trailing occurrences of the suffix: with no limit all of them (the results of
  \<^verbatim>\<open>addPath\<close> and \<^verbatim>\<open>addUrlSubdomain\<close> "never end in /"), with the limit 1 at most one ("remove
  at most one trailing occurrence of portalHost"). The spec is silent on an empty suffix;
  the model returns the string as it is.
\<close>

function trimSuffix :: "string \<Rightarrow> string \<Rightarrow> nat option \<Rightarrow> string" where
  "trimSuffix str sfx limit =
     (if sfx \<noteq> [] \<and> endsWith str sfx \<and> limit \<noteq> Some 0
      then trimSuffix (take (length str - length sfx) str) sfx (map_option (\<lambda>n. n - 1) limit)
      else str)"
  by pat_completeness auto
termination
proof (relation "measure (\<lambda>(str, sfx, limit). length str)")
  show "wf (measure (\<lambda>(str, sfx, limit). length str))" by simp
next
  fix str sfx :: string and limit :: "nat option"
  assume "sfx \<noteq> [] \<and> endsWith str sfx \<and> limit \<noteq> Some 0"
  then have "sfx \<noteq> []" and "suffix sfx str" by (simp_all add: endsWith_def)
  then have "length (take (length str - length sfx) str) < length str"
    using suffix_length_le [of sfx str] by (cases sfx) auto
  then show "((take (length str - length sfx) str, sfx, map_option (\<lambda>n. n - 1) limit), (str, sfx, limit))
         \<in> measure (\<lambda>(str, sfx, limit). length str)"
    by simp
qed

declare trimSuffix.simps [simp del]

text \<open>
  Modelled from the spec: \<^verbatim>\<open>trimForwardSlash\<close> of \<^verbatim>\<open>src/utils/string.ts\<close> (missing from the
  source tree) "strips leading/trailing slashes".
\<close>

definition trimForwardSlash :: "string \<Rightarrow> string" where
  "trimForwardSlash str = dropWhile (\<lambda>c. c = CHR ''/'') (trimSuffix str ''/'' None)"

text \<open>
  Modelled from the spec: \<^verbatim>\<open>trimUriPrefix\<close> of \<^verbatim>\<open>src/utils/string.ts\<close> (missing from the
  source tree) strips the given scheme prefix when the string starts with it ("stripping any
  http:// prefix the caller supplied", "strip a known CID-scheme prefix"). The spec does not
  say that the comparison ignores case; the model compares the characters as they are.
\<close>

definition trimUriPrefix :: "string \<Rightarrow> string \<Rightarrow> string" where
  "trimUriPrefix str p = (if startsWith str p then drop (length p) str else str)"

definition URI_S5_PREFIX :: string where
  "URI_S5_PREFIX = ''s5://''"

subsection \<open>Prefixing and joining\<close>

definition ensurePrefix :: "string \<Rightarrow> string \<Rightarrow> string" where
  "ensurePrefix str p = (if \<not> startsWith str p then p @ str else str)"

definition ensureUrl :: "string \<Rightarrow> string" where
  "ensureUrl url = (if startsWith url ''http://'' then url else ensurePrefix url ''https://'')"

definition ensureUrlPrefix :: "string \<Rightarrow> string" where
  "ensureUrlPrefix url =
     (if url = ''localhost'' then ''http://localhost/''
      else if \<not> re_test_anchored scheme_regex url then ''https://'' @ url
      else url)"

text \<open>
  What the spec says of \<^verbatim>\<open>ensureSchemePrefix\<close>, in its words: the input "already matches
  \<^verbatim>\<open>https?://\<close> (case-insensitive, optional \<^verbatim>\<open>//\<close>)" when, read in lower case, it starts with
  \<^verbatim>\<open>http:\<close>, \<^verbatim>\<open>http://\<close>, \<^verbatim>\<open>https:\<close> or \<^verbatim>\<open>https://\<close>; such an input is returned unchanged, the
  host \<^verbatim>\<open>localhost\<close> becomes \<^verbatim>\<open>http://localhost/\<close>, and anything else gets \<^verbatim>\<open>https://\<close> in
  front.
\<close>

definition matches_scheme_spec :: "string \<Rightarrow> bool" where
  "matches_scheme_spec s =
     (toLowerCase (take 5 s) = ''http:'' \<or> toLowerCase (take 7 s) = ''http://''
      \<or> toLowerCase (take 6 s) = ''https:'' \<or> toLowerCase (take 8 s) = ''https://'')"

definition ensureSchemePrefix_spec :: "string \<Rightarrow> string" where
  "ensureSchemePrefix_spec s =
     (if matches_scheme_spec s then s
      else if s = ''localhost'' then ''http://localhost/''
      else ''https://'' @ s)"

text \<open>
  \<^verbatim>\<open>Array.prototype.reduce\<close> with no initial value: the first element starts the
  accumulator and the callback runs on the others; on an empty array it throws a TypeError.
\<close>

fun reduce :: "('a \<Rightarrow> 'a \<Rightarrow> 'a) \<Rightarrow> 'a list \<Rightarrow> error + 'a" where
  "reduce f [] = Inl TypeError"
| "reduce f (x # xs) = Inr (foldl f x xs)"

text \<open>
  \<^verbatim>\<open>makeUrl\<close>. The function \<^verbatim>\<open>urljoin\<close> comes from the package url-join, which is not code
  of this repository: it is a parameter of the model.
\<close>

definition makeUrl :: "(string \<Rightarrow> string \<Rightarrow> string) \<Rightarrow> string list \<Rightarrow> error + string" where
  "makeUrl urljoin args =
     (if length args = 0 then Inl (throwValidationError ''args'')
      else case reduce (\<lambda>acc cur. urljoin acc cur) args of
             Inl e \<Rightarrow> Inl e
           | Inr joined \<Rightarrow> Inr (ensureUrl joined))"

text \<open>A join to put in the place of the parameter at concrete inputs: one slash between the
  two parts.\<close>

definition slash_join :: "string \<Rightarrow> string \<Rightarrow> string" where
  "slash_join acc cur = acc @ ''/'' @ cur"

section \<open>Domain resolver (utils/url.ts)\<close>

subsection \<open>The URL class of the platform\<close>

text \<open>
  \<^verbatim>\<open>new URL(s)\<close>, the properties \<^verbatim>\<open>hostname\<close> and \<^verbatim>\<open>pathname\<close> (read and assigned) and
  \<^verbatim>\<open>toString()\<close> belong to the JavaScript platform, not to this repository. The functions that
  use them take them as a parameter \<open>api\<close>, so that what is proved of them holds for every
  URL implementation, under the hypotheses a theorem states about it. \<open>new_URL\<close> returns
  \<open>None\<close> where the constructor throws its TypeError.
\<close>

record 'u url_api =
  new_URL :: "string \<Rightarrow> 'u option"
  get_hostname :: "'u \<Rightarrow> string"
  set_hostname :: "'u \<Rightarrow> string \<Rightarrow> 'u"
  get_pathname :: "'u \<Rightarrow> string"
  set_pathname :: "'u \<Rightarrow> string \<Rightarrow> 'u"
  toString :: "'u \<Rightarrow> string"


subsection \<open>\<^verbatim>\<open>addPath\<close> and \<^verbatim>\<open>addUrlSubdomain\<close>\<close>

text \<open>
  The calls of \<^verbatim>\<open>validateString\<close> (utils/validation.ts) at the head of the functions check
  that an argument is a string; the arguments are strings by their type here, and the calls
  have no counterpart.
\<close>

definition addPath :: "'u url_api \<Rightarrow> string \<Rightarrow> string \<Rightarrow> error + string" where
  "addPath api url path =
     (let path = trimForwardSlash path
      in if url = ''localhost''
         then Inr (trimSuffix (''localhost/'' @ path) ''/'' None)
         else case new_URL api url of
                None \<Rightarrow> Inl TypeError
              | Some urlObj \<Rightarrow>
                  Inr (trimSuffix (toString api (set_pathname api urlObj path)) ''/'' None))"

definition addUrlSubdomain :: "'u url_api \<Rightarrow> string \<Rightarrow> string \<Rightarrow> error + string" where
  "addUrlSubdomain api url subdomain =
     (case new_URL api url of
        None \<Rightarrow> Inl TypeError
      | Some urlObj \<Rightarrow>
          Inr (trimSuffix
                 (toString api (set_hostname api urlObj (subdomain @ ''.'' @ get_hostname api urlObj)))
                 ''/'' None))"

subsection \<open>Splitting on the first slash\<close>

text \<open>
  \<^verbatim>\<open>[domain, path] = domain.split(/\/(.+)/)\<close>. The pattern matches at the first slash that is
  followed by a character other than a line terminator, and its group takes all such
  characters that follow. The array starts with the text before that slash and the text of
  the group; without a match it is the string alone and \<^verbatim>\<open>path\<close> is undefined (\<open>None\<close>). Of
  the line terminators, line feed and carriage return are single characters here.
\<close>

definition is_line_terminator :: "char \<Rightarrow> bool" where
  "is_line_terminator c = (c = CHR 0x0A \<or> c = CHR 0x0D)"

fun split_first_slash :: "string \<Rightarrow> string \<times> string option" where
  "split_first_slash [] = ([], None)"
| "split_first_slash (c # cs) =
     (if c = CHR ''/'' \<and> cs \<noteq> [] \<and> \<not> is_line_terminator (hd cs)
      then ([], Some (takeWhile (\<lambda>x. \<not> is_line_terminator x) cs))
      else case split_first_slash cs of (a, p) \<Rightarrow> (c # a, p))"

subsection \<open>\<^verbatim>\<open>getFullDomainUrlForPortal\<close> and \<^verbatim>\<open>extractDomainForPortal\<close>\<close>

definition getFullDomainUrlForPortal :: "'u url_api \<Rightarrow> string \<Rightarrow> string \<Rightarrow> error + string" where
  "getFullDomainUrlForPortal api portalUrl domain =
     (let portalUrl = ensureUrlPrefix (trimUriPrefix portalUrl ''http://'');
          domain = trimUriPrefix domain URI_S5_PREFIX;
          domain = trimForwardSlash domain;
          (domain, path) = split_first_slash domain
      in case (if domain = ''localhost'' then Inr ''localhost''
               else addUrlSubdomain api portalUrl domain) of
           Inl e \<Rightarrow> Inl e
         | Inr url \<Rightarrow>
             (case path of
                None \<Rightarrow> Inr url
              | Some p \<Rightarrow> if p \<noteq> [] then addPath api url p else Inr url))"


subsection \<open>A URL implementation for concrete inputs\<close>

text \<open>
  To evaluate the functions at concrete inputs the parameter \<open>api\<close> needs a value. This one
  covers the URLs \<^verbatim>\<open>http://host[:port][/path]\<close> and \<^verbatim>\<open>https://host[:port][/path]\<close> with a host
  and a path of plain ASCII letters, digits, \<^verbatim>\<open>-\<close>, \<^verbatim>\<open>.\<close>, and, in the path, \<^verbatim>\<open>/\<close>. On these it
  follows the URL standard: scheme and host are put in lower case, a default port is
  dropped, an empty path is \<^verbatim>\<open>/\<close>. A string with no scheme in front (such as \<^verbatim>\<open>localhost\<close> or
  \<^verbatim>\<open>abc.portal.example\<close>) is not a URL, and the constructor throws. Everything else is
  outside this instance (credentials, query, fragment, percent-encoding, dot segments,
  numeric and international hosts, other schemes and other ways of writing the two it has),
  and the theorems below apply it to no such input.
\<close>

record url =
  protocol :: string
  hostname :: string
  port :: string
  pathname :: string

definition default_port :: "string \<Rightarrow> string" where
  "default_port proto = (if proto = ''http:'' then ''80'' else if proto = ''https:'' then ''443'' else '''')"

definition http_url_after :: "string \<Rightarrow> string \<Rightarrow> url option" where
  "http_url_after proto rest =
     (let authority = takeWhile (\<lambda>c. c \<noteq> CHR ''/'') rest;
          path = dropWhile (\<lambda>c. c \<noteq> CHR ''/'') rest;
          host = takeWhile (\<lambda>c. c \<noteq> CHR '':'') authority;
          prt = drop 1 (dropWhile (\<lambda>c. c \<noteq> CHR '':'') authority)
      in if host = [] then None
         else Some \<lparr>protocol = proto,
                    hostname = toLowerCase host,
                    port = (if prt = default_port proto then [] else prt),
                    pathname = (if path = [] then ''/'' else path)\<rparr>)"

definition http_new_URL :: "string \<Rightarrow> url option" where
  "http_new_URL s =
     (if toLowerCase (take 7 s) = ''http://'' then http_url_after ''http:'' (drop 7 s)
      else if toLowerCase (take 8 s) = ''https://'' then http_url_after ''https:'' (drop 8 s)
      else None)"

definition http_set_hostname :: "url \<Rightarrow> string \<Rightarrow> url" where
  "http_set_hostname u v = (if v = [] then u else u\<lparr>hostname := toLowerCase v\<rparr>)"

definition http_set_pathname :: "url \<Rightarrow> string \<Rightarrow> url" where
  "http_set_pathname u v = u\<lparr>pathname := (if startsWith v ''/'' then v else ''/'' @ v)\<rparr>"

definition http_toString :: "url \<Rightarrow> string" where
  "http_toString u =
     protocol u @ ''//'' @ hostname u @ (if port u = [] then [] else '':'' @ port u) @ pathname u"

definition http_url_api :: "url url_api" where
  "http_url_api =
     \<lparr>new_URL = http_new_URL,
      get_hostname = hostname,
      set_hostname = http_set_hostname,
      get_pathname = pathname,
      set_pathname = http_set_pathname,
      toString = http_toString\<rparr>"

subsection \<open>Plain hosts, ports and domains\<close>









section \<open>Upload orchestrator: small or large (\<^verbatim>\<open>uploadFile\<close>, upload.ts)\<close>

text \<open>
  A \<^verbatim>\<open>File\<close> is known here by its name, its size in bytes and its MIME type. The options are
  the fields of \<^verbatim>\<open>CustomUploadOptions\<close> that \<^verbatim>\<open>upload.ts\<close> declares itself; the fields it inherits
  from \<^verbatim>\<open>BaseCustomOptions\<close> (keys, cookies, progress callbacks) play no part in the choice of
  the path and are left out. Sizes are integers, as in the partitioner.
\<close>

record File =
  file_name :: string
  file_size :: int
  file_type :: string

record upload_options =
  endpointUpload :: string
  endpointDirectoryUpload :: string
  endpointLargeUpload :: string
  customFilename :: string
  chunkSizeMultiplier :: int
  largeFileSize :: int
  numParallelUploads :: int
  staggerPercent :: "int option"
  retryDelays :: "int list"

text \<open>Options as a caller gives them: every field may be absent.\<close>

record custom_upload_options =
  c_endpointUpload :: "string option"
  c_endpointDirectoryUpload :: "string option"
  c_endpointLargeUpload :: "string option"
  c_customFilename :: "string option"
  c_chunkSizeMultiplier :: "int option"
  c_largeFileSize :: "int option"
  c_numParallelUploads :: "int option"
  c_staggerPercent :: "int option option"
  c_retryDelays :: "int list option"

definition TUS_CHUNK_SIZE :: int where
  "TUS_CHUNK_SIZE = 2 ^ 22 * 10"

definition DEFAULT_TUS_CHUNK_SIZE_MULTIPLIER :: int where
  "DEFAULT_TUS_CHUNK_SIZE_MULTIPLIER = 3"

definition DEFAULT_TUS_PARALLEL_UPLOADS :: int where
  "DEFAULT_TUS_PARALLEL_UPLOADS = 2"

definition DEFAULT_TUS_RETRY_DELAYS :: "int list" where
  "DEFAULT_TUS_RETRY_DELAYS = [0, 5000, 15000, 60000, 300000, 600000]"

definition DEFAULT_TUS_STAGGER_PERCENT :: int where
  "DEFAULT_TUS_STAGGER_PERCENT = 50"

definition PORTAL_FILE_FIELD_NAME :: string where
  "PORTAL_FILE_FIELD_NAME = ''file''"

definition DEFAULT_UPLOAD_OPTIONS :: upload_options where
  "DEFAULT_UPLOAD_OPTIONS =
     \<lparr>endpointUpload = ''/s5/upload'',
      endpointDirectoryUpload = ''/s5/upload/directory'',
      endpointLargeUpload = ''/s5/upload/tus'',
      customFilename = '''',
      chunkSizeMultiplier = DEFAULT_TUS_CHUNK_SIZE_MULTIPLIER,
      largeFileSize = TUS_CHUNK_SIZE,
      numParallelUploads = DEFAULT_TUS_PARALLEL_UPLOADS,
      staggerPercent = Some DEFAULT_TUS_STAGGER_PERCENT,
      retryDelays = DEFAULT_TUS_RETRY_DELAYS\<rparr>"

text \<open>
  The object spread \<^verbatim>\<open>{ ...opts, ...custom }\<close>: a field that \<open>custom\<close> has replaces the one of
  \<open>opts\<close>. (A property present with the value \<^verbatim>\<open>undefined\<close> is not modelled.)
\<close>

definition override :: "'a \<Rightarrow> 'a option \<Rightarrow> 'a" where
  "override v c = (case c of None \<Rightarrow> v | Some w \<Rightarrow> w)"

definition spread :: "upload_options \<Rightarrow> custom_upload_options \<Rightarrow> upload_options" where
  "spread opts custom =
     \<lparr>endpointUpload = override (endpointUpload opts) (c_endpointUpload custom),
      endpointDirectoryUpload = override (endpointDirectoryUpload opts) (c_endpointDirectoryUpload custom),
      endpointLargeUpload = override (endpointLargeUpload opts) (c_endpointLargeUpload custom),
      customFilename = override (customFilename opts) (c_customFilename custom),
      chunkSizeMultiplier = override (chunkSizeMultiplier opts) (c_chunkSizeMultiplier custom),
      largeFileSize = override (largeFileSize opts) (c_largeFileSize custom),
      numParallelUploads = override (numParallelUploads opts) (c_numParallelUploads custom),
      staggerPercent = override (staggerPercent opts) (c_staggerPercent custom),
      retryDelays = override (retryDelays opts) (c_retryDelays custom)\<rparr>"

text \<open>Resolved options handed on as the \<^verbatim>\<open>customOptions\<close> of the next call: every field is there.\<close>

definition as_custom :: "upload_options \<Rightarrow> custom_upload_options" where
  "as_custom opts =
     \<lparr>c_endpointUpload = Some (endpointUpload opts),
      c_endpointDirectoryUpload = Some (endpointDirectoryUpload opts),
      c_endpointLargeUpload = Some (endpointLargeUpload opts),
      c_customFilename = Some (customFilename opts),
      c_chunkSizeMultiplier = Some (chunkSizeMultiplier opts),
      c_largeFileSize = Some (largeFileSize opts),
      c_numParallelUploads = Some (numParallelUploads opts),
      c_staggerPercent = Some (staggerPercent opts),
      c_retryDelays = Some (retryDelays opts)\<rparr>"

text \<open>
  The descriptor handed to \<^verbatim>\<open>executeRequest\<close> (the transport, outside this code): the endpoint
  path, the HTTP verb (the field \<^verbatim>\<open>method\<close> of the source) and the form data, a list of fields each with a file and the file name
  given to \<^verbatim>\<open>FormData.append\<close>, if one was given.
\<close>

record request =
  endpointPath :: string
  req_method :: string
  data :: "(string \<times> File \<times> string option) list"

text \<open>\<^verbatim>\<open>getFileMimeType\<close> of \<^verbatim>\<open>utils/file.ts\<close> is a parameter, \<open>mime\<close>.\<close>

definition ensureFileObjectConsistency :: "(File \<Rightarrow> string) \<Rightarrow> File \<Rightarrow> File" where
  "ensureFileObjectConsistency mime f =
     \<lparr>file_name = file_name f, file_size = file_size f, file_type = mime f\<rparr>"

text \<open>\<^verbatim>\<open>uploadSmallFileRequest\<close>: the requests it has the transport execute, in order.\<close>

definition uploadSmallFileRequest ::
  "(File \<Rightarrow> string) \<Rightarrow> custom_upload_options \<Rightarrow> File \<Rightarrow> custom_upload_options \<Rightarrow> request list" where
  "uploadSmallFileRequest mime this_customOptions f customOptions =
     (let opts = spread (spread DEFAULT_UPLOAD_OPTIONS this_customOptions) customOptions;
          f = ensureFileObjectConsistency mime f;
          formData =
            (if customFilename opts \<noteq> ''''
             then [(PORTAL_FILE_FIELD_NAME, f, Some (customFilename opts))]
             else [(PORTAL_FILE_FIELD_NAME, f, None)])
      in [\<lparr>endpointPath = endpointUpload opts, req_method = ''post'', data = formData\<rparr>])"

text \<open>
  \<^verbatim>\<open>uploadFile\<close> hands the file to one of two methods of the client; the model returns which
  one, with its arguments.
\<close>

datatype upload_call =
  UploadSmallFile File upload_options
| UploadLargeFile File upload_options

definition uploadFile :: "custom_upload_options \<Rightarrow> File \<Rightarrow> custom_upload_options \<Rightarrow> upload_call" where
  "uploadFile this_customOptions f customOptions =
     (let opts = spread (spread DEFAULT_UPLOAD_OPTIONS this_customOptions) customOptions
      in if file_size f < largeFileSize opts * chunkSizeMultiplier opts
         then UploadSmallFile f opts
         else UploadLargeFile f opts)"

text \<open>The requests of the small path: \<^verbatim>\<open>uploadSmallFile\<close> calls \<^verbatim>\<open>uploadSmallFileRequest\<close> with
  the options it was given.\<close>

definition uploadSmallFile ::
  "(File \<Rightarrow> string) \<Rightarrow> custom_upload_options \<Rightarrow> File \<Rightarrow> upload_options \<Rightarrow> request list" where
  "uploadSmallFile mime this_customOptions f customOptions =
     uploadSmallFileRequest mime this_customOptions f (as_custom customOptions)"

text \<open>No option given by the caller.\<close>

definition no_options :: custom_upload_options where
  "no_options =
     \<lparr>c_endpointUpload = None, c_endpointDirectoryUpload = None, c_endpointLargeUpload = None,
      c_customFilename = None, c_chunkSizeMultiplier = None, c_largeFileSize = None,
      c_numParallelUploads = None, c_staggerPercent = None, c_retryDelays = None\<rparr>"

section \<open>Properties of the upload partitioner\<close>

lemma js_rem_nonneg: "0 \<le> a \<Longrightarrow> 0 < b \<Longrightarrow> js_rem a b = a mod b"
  by (cases "a = 0") (simp_all add: js_rem_def)

lemma assignChunks_index:
  "0 \<le> i \<Longrightarrow> 1 \<le> partCount \<Longrightarrow> length partSizes = nat partCount \<Longrightarrow>
   nat (js_rem i partCount) < length partSizes"
  by (simp add: js_rem_nonneg)

lemma lastIndex_in_range:
  "1 \<le> partCount \<Longrightarrow> 1 \<le> chunkSize \<Longrightarrow> chunkSize < totalSize \<Longrightarrow>
   0 \<le> min (totalSize div chunkSize) (partCount - 1)
   \<and> nat (min (totalSize div chunkSize) (partCount - 1)) < nat partCount"
  by (simp add: pos_imp_zdiv_nonneg_iff)

lemma convertSizes_index:
  "0 \<le> i \<Longrightarrow> i < partCount \<Longrightarrow> length partSizes = nat partCount \<Longrightarrow>
   nat i < length partSizes"
  by simp

lemma hits_step:
  "i < n \<Longrightarrow> hits i n p k = (if i mod p = int k then 1 else 0) + hits (i + 1) n p k"
  by (simp add: hits_def upto_rec1)

lemma hits_done: "\<not> i < n \<Longrightarrow> hits i n p k = 0"
  by (simp add: hits_def)

lemma assignChunks_length: "length (assignChunks i n p c s) = length s"
proof (induction i n p c s rule: assignChunks.induct)
  case (1 i n p c s)
  show ?case
  proof (cases "i < n")
    case True
    with 1 show ?thesis by (subst assignChunks.simps) simp
  next
    case False
    then show ?thesis by (subst assignChunks.simps) simp
  qed
qed

lemma assignChunks_nth:
  "0 \<le> i \<Longrightarrow> 1 \<le> p \<Longrightarrow> length s = nat p \<Longrightarrow> k < nat p \<Longrightarrow>
   assignChunks i n p c s ! k = s ! k + c * int (hits i n p k)"
proof (induction i n p c s rule: assignChunks.induct)
  case (1 i n p c s)
  show ?case
  proof (cases "i < n")
    case False
    then show ?thesis by (subst assignChunks.simps) (simp add: hits_done)
  next
    case True
    have r: "js_rem i p = i mod p" using 1 by (simp add: js_rem_nonneg)
    have rng: "nat (i mod p) < length s" using 1 by simp
    let ?s = "s[nat (js_rem i p) := s ! nat (js_rem i p) + c]"
    have "assignChunks i n p c s ! k = assignChunks (i + 1) n p c ?s ! k"
      using True by (subst assignChunks.simps) simp
    also have "\<dots> = ?s ! k + c * int (hits (i + 1) n p k)"
      using 1 True by simp
    also have "?s ! k = s ! k + (if i mod p = int k then c else 0)"
      using rng 1 by (auto simp: r nth_list_update)
    finally show ?thesis using True by (simp add: hits_step algebra_simps)
  qed
qed

lemma sum_list_add_at:
  "k < length xs \<Longrightarrow> sum_list (xs[k := xs ! k + v]) = sum_list xs + (v::int)"
proof (induction xs arbitrary: k)
  case Nil
  then show ?case by simp
next
  case (Cons x xs)
  then show ?case by (cases k) simp_all
qed

lemma assignChunks_sum:
  "0 \<le> i \<Longrightarrow> i \<le> n \<Longrightarrow> 1 \<le> p \<Longrightarrow> length s = nat p \<Longrightarrow>
   sum_list (assignChunks i n p c s) = sum_list s + c * (n - i)"
proof (induction i n p c s rule: assignChunks.induct)
  case (1 i n p c s)
  show ?case
  proof (cases "i < n")
    case False
    with 1 show ?thesis by (subst assignChunks.simps) simp
  next
    case True
    have r: "js_rem i p = i mod p" using 1 by (simp add: js_rem_nonneg)
    have rng: "nat (i mod p) < length s" using 1 by simp
    let ?s = "s[nat (js_rem i p) := s ! nat (js_rem i p) + c]"
    have "sum_list (assignChunks i n p c s) = sum_list (assignChunks (i + 1) n p c ?s)"
      using True by (subst assignChunks.simps) simp
    also have "\<dots> = sum_list ?s + c * (n - (i + 1))"
      using 1 True by simp
    also have "sum_list ?s = sum_list s + c"
      using rng by (simp add: r sum_list_add_at)
    finally show ?thesis by (simp add: algebra_simps)
  qed
qed

lemma convertSizes_eq:
  "0 \<le> i \<Longrightarrow> length parts = nat i \<Longrightarrow> length sizes = nat p \<Longrightarrow>
   convertSizes i p sizes b parts = parts @ ranges_from b (drop (nat i) sizes)"
proof (induction i p sizes b parts rule: convertSizes.induct)
  case (1 i p sizes b parts)
  show ?case
  proof (cases "i < p")
    case False
    with 1 show ?thesis by (subst convertSizes.simps) simp
  next
    case True
    let ?ps = "parts @ [\<lparr>start = b, end' = b + sizes ! nat i\<rparr>]"
    have e: "end' (?ps ! nat i) = b + sizes ! nat i"
      using 1 by (simp add: nth_append)
    have d: "drop (nat i) sizes = sizes ! nat i # drop (nat (i + 1)) sizes"
      using 1 True by (simp add: Cons_nth_drop_Suc nat_add_distrib)
    have "convertSizes i p sizes b parts = convertSizes (i + 1) p sizes (end' (?ps ! nat i)) ?ps"
      using True by (subst convertSizes.simps) (simp add: Let_def)
    also have "\<dots> = ?ps @ ranges_from (end' (?ps ! nat i)) (drop (nat (i + 1)) sizes)"
      using 1 True by (simp add: nat_add_distrib)
    finally show ?thesis by (simp add: e d)
  qed
qed


lemma split_valid:
  assumes "1 \<le> p" "p < 2 ^ 32" "1 \<le> c" "c < t" "t < 2 ^ 53"
  shows "splitSizeIntoChunkAlignedParts t p c = Some (Inr (ranges_from 0 (final_sizes t p c)))"
proof -
  have safe: "isSafeInteger t" "isSafeInteger p" "isSafeInteger c"
    using assms by (simp_all add: isSafeInteger_def MAX_SAFE_INTEGER_def)
  have arr: "new_Array_fill p (0::int) = Inr (replicate (nat p) 0)"
    using assms by (simp add: new_Array_fill_def)
  have r: "js_rem t c = t mod c" using assms by (simp add: js_rem_nonneg)
  have l: "length (final_sizes t p c) = nat p"
    by (simp add: final_sizes_def Let_def assignChunks_length)
  have "splitSizeIntoChunkAlignedParts t p c =
          Some (Inr (convertSizes 0 p (final_sizes t p c) 0 []))"
    using assms(1,3,4) safe
    by (simp add: splitSizeIntoChunkAlignedParts_def arr final_sizes_def Let_def r)
  also have "convertSizes 0 p (final_sizes t p c) 0 [] =
               [] @ ranges_from 0 (drop (nat 0) (final_sizes t p c))"
    by (rule convertSizes_eq) (simp_all add: l)
  finally show ?thesis by simp
qed

lemma split_too_many:
  assumes "2 ^ 32 \<le> p" "p < 2 ^ 53" "1 \<le> c" "c < t" "t < 2 ^ 53"
  shows "splitSizeIntoChunkAlignedParts t p c = Some (Inl RangeError)"
proof -
  have safe: "isSafeInteger t" "isSafeInteger p" "isSafeInteger c"
    using assms by (simp_all add: isSafeInteger_def MAX_SAFE_INTEGER_def)
  have arr: "new_Array_fill p (0::int) = Inl RangeError"
    using assms by (simp add: new_Array_fill_def)
  show ?thesis
    using assms safe by (simp add: splitSizeIntoChunkAlignedParts_def arr)
qed

lemma split_invalid:
  assumes "isSafeInteger t" "isSafeInteger p" "isSafeInteger c" "p < 1 \<or> c < 1 \<or> t \<le> c"
  shows "\<exists>name. splitSizeIntoChunkAlignedParts t p c = Some (Inl (InvalidArgument name))"
  using assms by (auto simp: splitSizeIntoChunkAlignedParts_def throwValidationError_def)

lemma final_sizes_length: "length (final_sizes t p c) = nat p"
  by (simp add: final_sizes_def Let_def assignChunks_length)

lemma final_sizes_nth:
  assumes "1 \<le> p" "1 \<le> c" "c < t" "k < nat p"
  shows "final_sizes t p c ! k =
           c * int (hits 0 (t div c) p k) +
           (if 0 < t mod c \<and> int k = min (t div c) (p - 1) then t mod c else 0)"
proof -
  let ?s = "assignChunks 0 (t div c) p c (replicate (nat p) 0)"
  let ?li = "nat (min (t div c) (p - 1))"
  have n0: "0 \<le> t div c" using assms by (simp add: pos_imp_zdiv_nonneg_iff)
  have li: "?li < length ?s" using assms n0 by (simp add: assignChunks_length)
  have s: "?s ! k = c * int (hits 0 (t div c) p k)"
    using assms by (subst assignChunks_nth) simp_all
  have eq: "(k = ?li) = (int k = min (t div c) (p - 1))" using n0 assms by auto
  show ?thesis
  proof (cases "0 < t mod c")
    case False
    then show ?thesis by (simp add: final_sizes_def Let_def s)
  next
    case True
    then have "final_sizes t p c ! k = (?s[?li := ?s ! ?li + t mod c]) ! k"
      by (simp add: final_sizes_def Let_def)
    also have "\<dots> = (if k = ?li then ?s ! k + t mod c else ?s ! k)"
      using li assms by (simp add: nth_list_update assignChunks_length)
    finally show ?thesis using True by (simp add: s eq)
  qed
qed

lemma final_sizes_sum:
  assumes "1 \<le> p" "1 \<le> c" "c < t"
  shows "sum_list (final_sizes t p c) = t"
proof -
  let ?s = "assignChunks 0 (t div c) p c (replicate (nat p) 0)"
  let ?li = "nat (min (t div c) (p - 1))"
  have n0: "0 \<le> t div c" using assms by (simp add: pos_imp_zdiv_nonneg_iff)
  have li: "?li < length ?s" using assms n0 by (simp add: assignChunks_length)
  have s: "sum_list ?s = c * (t div c)"
    using assms n0 by (subst assignChunks_sum) (simp_all add: sum_list_replicate)
  show ?thesis
  proof (cases "0 < t mod c")
    case False
    moreover have "0 \<le> t mod c" using assms by simp
    ultimately have "t mod c = 0" by linarith
    then have "c * (t div c) = t" by (simp add: mod_0_imp_dvd)
    then show ?thesis using False by (simp add: final_sizes_def Let_def s)
  next
    case True
    then have "sum_list (final_sizes t p c) = sum_list (?s[?li := ?s ! ?li + t mod c])"
      by (simp add: final_sizes_def Let_def)
    also have "\<dots> = sum_list ?s + t mod c" using li by (rule sum_list_add_at)
    finally show ?thesis by (simp add: s mult_div_mod_eq)
  qed
qed

lemma final_sizes_nonneg:
  assumes "1 \<le> p" "1 \<le> c" "c < t" "k < nat p"
  shows "0 \<le> final_sizes t p c ! k"
proof -
  have "0 \<le> t mod c" using assms by simp
  moreover have "0 \<le> c * int (hits 0 (t div c) p k)" using assms by simp
  ultimately show ?thesis using assms by (simp add: final_sizes_nth)
qed

lemma ranges_from_length: "length (ranges_from b ss) = length ss"
  by (induction ss arbitrary: b) simp_all

lemma ranges_from_start:
  "k < length ss \<Longrightarrow> start (ranges_from b ss ! k) = b + sum_list (take k ss)"
proof (induction ss arbitrary: b k)
  case Nil
  then show ?case by simp
next
  case (Cons s ss)
  then show ?case by (cases k) simp_all
qed

lemma ranges_from_end:
  "k < length ss \<Longrightarrow> end' (ranges_from b ss ! k) = b + sum_list (take (Suc k) ss)"
proof (induction ss arbitrary: b k)
  case Nil
  then show ?case by simp
next
  case (Cons s ss)
  then show ?case by (cases k) simp_all
qed

lemma ranges_from_size:
  "k < length ss \<Longrightarrow> part_size (ranges_from b ss ! k) = ss ! k"
  by (simp add: part_size_def ranges_from_start ranges_from_end take_Suc_conv_app_nth)

lemma ranges_from_sizes: "map part_size (ranges_from b ss) = ss"
  by (induction ss arbitrary: b) (simp_all add: part_size_def)

lemma ranges_from_last:
  "ss \<noteq> [] \<Longrightarrow> end' (last (ranges_from b ss)) = b + sum_list ss"
proof (induction ss arbitrary: b)
  case Nil
  then show ?case by simp
next
  case (Cons s ss)
  then show ?case by (cases ss) simp_all
qed


lemma hits_beyond:
  assumes "0 \<le> n" "n \<le> int k" "int k < p"
  shows "hits 0 n p k = 0"
proof -
  have "\<And>j. j \<in> set [0..n - 1] \<Longrightarrow> j mod p \<noteq> int k"
  proof -
    fix j assume "j \<in> set [0..n - 1]"
    then have j: "0 \<le> j" "j < n" by auto
    then have "j mod p = j" using assms by simp
    then show "j mod p \<noteq> int k" using j assms by simp
  qed
  then have "filter (\<lambda>j. j mod p = int k) [0..n - 1] = []"
    by (simp add: filter_empty_conv)
  then show ?thesis by (simp add: hits_def)
qed


text \<open>
  Claim C1, as amended. For safe-integer arguments with \<open>1 \<le> partCount \<le> 4294967295\<close>,
  \<open>chunkSize \<ge> 1\<close> and \<open>totalSize > chunkSize\<close> the call returns a list of parts that is not
  empty, starts at 0, is contiguous (each part ends where the next one starts), has no part
  with \<open>end < start\<close>, whose sizes add up to \<open>totalSize\<close> and whose last part ends at
  \<open>totalSize\<close>: the parts tile the range from 0 to \<open>totalSize\<close>.
\<close>

theorem splitSize_tiles:
  assumes "1 \<le> partCount" "partCount < 2 ^ 32" "1 \<le> chunkSize" "chunkSize < totalSize"
    and "totalSize < 2 ^ 53"
  shows "\<exists>parts. splitSizeIntoChunkAlignedParts totalSize partCount chunkSize = Some (Inr parts)
     \<and> parts \<noteq> [] \<and> start (hd parts) = 0
     \<and> (\<forall>k. Suc k < length parts \<longrightarrow> end' (parts ! k) = start (parts ! Suc k))
     \<and> (\<forall>k. k < length parts \<longrightarrow> start (parts ! k) \<le> end' (parts ! k))
     \<and> sum_list (map part_size parts) = totalSize
     \<and> end' (last parts) = totalSize"
proof -
  let ?ss = "final_sizes totalSize partCount chunkSize"
  let ?ps = "ranges_from 0 ?ss"
  have v: "1 \<le> partCount" "1 \<le> chunkSize" "chunkSize < totalSize" using assms by simp_all
  have len: "length ?ss = nat partCount" by (rule final_sizes_length)
  have ne: "?ss \<noteq> []" using assms len by auto
  have plen: "length ?ps = length ?ss" by (rule ranges_from_length)
  have 1: "splitSizeIntoChunkAlignedParts totalSize partCount chunkSize = Some (Inr ?ps)"
    using assms by (rule split_valid)
  have 2: "?ps \<noteq> []" using ne plen by auto
  have 3: "start (hd ?ps) = 0"
    using ne by (cases ?ss) simp_all
  have 4: "\<forall>k. Suc k < length ?ps \<longrightarrow> end' (?ps ! k) = start (?ps ! Suc k)"
    by (simp add: plen ranges_from_start ranges_from_end)
  have 5: "\<forall>k. k < length ?ps \<longrightarrow> start (?ps ! k) \<le> end' (?ps ! k)"
  proof (intro allI impI)
    fix k assume k: "k < length ?ps"
    then have kp: "k < nat partCount" using plen len by simp
    have "0 \<le> ?ss ! k" using v kp by (rule final_sizes_nonneg)
    moreover have "part_size (?ps ! k) = ?ss ! k"
      using k plen by (simp add: ranges_from_size)
    ultimately show "start (?ps ! k) \<le> end' (?ps ! k)" by (simp add: part_size_def)
  qed
  have 6: "sum_list (map part_size ?ps) = totalSize"
    using v by (simp add: ranges_from_sizes final_sizes_sum)
  have 7: "end' (last ?ps) = totalSize"
    using v ne by (simp add: ranges_from_last final_sizes_sum)
  from 1 2 3 4 5 6 7 show ?thesis by blast
qed

text \<open>
  The hypotheses of the amended C1 hold at \<open>(25, 2, 10)\<close>.
\<close>

theorem splitSize_tiles_witness:
  "(1::int) \<le> 2 \<and> (2::int) < 2 ^ 32 \<and> (1::int) \<le> 10 \<and> (10::int) < 25 \<and> (25::int) < 2 ^ 53 \<and>
   (\<exists>parts. splitSizeIntoChunkAlignedParts 25 2 10 = Some (Inr parts)
     \<and> parts \<noteq> [] \<and> start (hd parts) = 0
     \<and> (\<forall>k. Suc k < length parts \<longrightarrow> end' (parts ! k) = start (parts ! Suc k))
     \<and> (\<forall>k. k < length parts \<longrightarrow> start (parts ! k) \<le> end' (parts ! k))
     \<and> sum_list (map part_size parts) = 25
     \<and> end' (last parts) = 25)"
  using splitSize_tiles [of 2 10 25] by simp

text \<open>
  Claim C1 as stated fails: \<open>(100, 4294967296, 10)\<close> meets its three preconditions, and the
  call throws the RangeError of \<^verbatim>\<open>new Array(partCount)\<close>; no list of parts is returned.
\<close>

theorem splitSize_tiles_counterexample:
  "(1::int) \<le> 4294967296 \<and> (1::int) \<le> 10 \<and> (10::int) < 100
   \<and> splitSizeIntoChunkAlignedParts 100 4294967296 10 = Some (Inl RangeError)
   \<and> (\<nexists>parts. splitSizeIntoChunkAlignedParts 100 4294967296 10 = Some (Inr parts))"
  by (simp add: split_too_many)

text \<open>
  Claim C2, as amended. For safe-integer arguments with \<open>1 \<le> partCount \<le> 4294967295\<close>,
  \<open>chunkSize \<ge> 1\<close> and \<open>totalSize > chunkSize\<close> the call returns \<open>partCount\<close> parts, of which at
  most one has a size that is not a multiple of \<open>chunkSize\<close>. Part \<open>k\<close> has one \<open>chunkSize\<close> for
  each round \<open>j < floor(totalSize / chunkSize)\<close> of the round robin with
  \<open>j mod partCount = k\<close>, and on top of that the whole leftover \<open>totalSize mod chunkSize\<close>, when
  it is not zero, exactly at the index \<open>min(floor(totalSize / chunkSize), partCount - 1)\<close>, which
  is the index of a part of the list; the sizes of the other parts are multiples of
  \<open>chunkSize\<close>. The call \<open>(25, 2, 10)\<close> returns the parts \<open>{0, 10}\<close> and \<open>{10, 25}\<close>.
\<close>

theorem splitSize_leftover:
  assumes "1 \<le> partCount" "partCount < 2 ^ 32" "1 \<le> chunkSize" "chunkSize < totalSize"
    and "totalSize < 2 ^ 53"
  shows "(\<exists>parts. splitSizeIntoChunkAlignedParts totalSize partCount chunkSize = Some (Inr parts)
     \<and> int (length parts) = partCount
     \<and> (\<forall>j k. j < length parts \<and> k < length parts
            \<and> \<not> chunkSize dvd part_size (parts ! j) \<and> \<not> chunkSize dvd part_size (parts ! k)
          \<longrightarrow> j = k)
     \<and> nat (min (totalSize div chunkSize) (partCount - 1)) < length parts
     \<and> part_size (parts ! nat (min (totalSize div chunkSize) (partCount - 1))) =
          chunkSize * int (hits 0 (totalSize div chunkSize) partCount
                             (nat (min (totalSize div chunkSize) (partCount - 1))))
          + totalSize mod chunkSize
     \<and> (\<forall>k. k < length parts \<and> k \<noteq> nat (min (totalSize div chunkSize) (partCount - 1)) \<longrightarrow>
            part_size (parts ! k) = chunkSize * int (hits 0 (totalSize div chunkSize) partCount k))
     \<and> sum_list (map part_size parts) = totalSize)
     \<and> splitSizeIntoChunkAlignedParts 25 2 10 =
           Some (Inr [\<lparr>start = 0, end' = 10\<rparr>, \<lparr>start = 10, end' = 25\<rparr>])"
proof -
  let ?ss = "final_sizes totalSize partCount chunkSize"
  let ?ps = "ranges_from 0 ?ss"
  let ?n = "totalSize div chunkSize"
  let ?li = "min ?n (partCount - 1)"
  have v: "1 \<le> partCount" "1 \<le> chunkSize" "chunkSize < totalSize" using assms by simp_all
  have n0: "0 \<le> ?n" using v by (simp add: pos_imp_zdiv_nonneg_iff)
  have m0: "0 \<le> totalSize mod chunkSize" using v by simp
  have len: "length ?ps = nat partCount" by (simp add: ranges_from_length final_sizes_length)
  have 1: "splitSizeIntoChunkAlignedParts totalSize partCount chunkSize = Some (Inr ?ps)"
    using assms by (rule split_valid)
  have 2: "int (length ?ps) = partCount" using v len by simp
  have li0: "0 \<le> ?li" using v n0 by simp
  have 4: "nat ?li < length ?ps" using v n0 len by simp
  have sz: "part_size (?ps ! k) =
              chunkSize * int (hits 0 ?n partCount k) +
              (if 0 < totalSize mod chunkSize \<and> int k = ?li then totalSize mod chunkSize else 0)"
    if "k < length ?ps" for k
  proof -
    have "k < nat partCount" using that len by simp
    then show ?thesis
      using v by (simp add: ranges_from_size final_sizes_length final_sizes_nth)
  qed
  have 5: "part_size (?ps ! nat ?li) =
             chunkSize * int (hits 0 ?n partCount (nat ?li)) + totalSize mod chunkSize"
  proof (cases "0 < totalSize mod chunkSize")
    case True
    then show ?thesis using sz [OF 4] li0 by simp
  next
    case False
    then have "totalSize mod chunkSize = 0" using m0 by linarith
    then show ?thesis using sz [OF 4] by simp
  qed
  have 6: "\<forall>k. k < length ?ps \<and> k \<noteq> nat ?li \<longrightarrow>
            part_size (?ps ! k) = chunkSize * int (hits 0 ?n partCount k)"
  proof (intro allI impI)
    fix k assume h: "k < length ?ps \<and> k \<noteq> nat ?li"
    then have "int k \<noteq> ?li" using li0 by auto
    then show "part_size (?ps ! k) = chunkSize * int (hits 0 ?n partCount k)"
      using sz [of k] h by simp
  qed
  have 3: "\<forall>j k. j < length ?ps \<and> k < length ?ps
            \<and> \<not> chunkSize dvd part_size (?ps ! j) \<and> \<not> chunkSize dvd part_size (?ps ! k)
          \<longrightarrow> j = k"
  proof (intro allI impI)
    fix j k
    assume h: "j < length ?ps \<and> k < length ?ps
            \<and> \<not> chunkSize dvd part_size (?ps ! j) \<and> \<not> chunkSize dvd part_size (?ps ! k)"
    have "j = nat ?li"
    proof (rule ccontr)
      assume "j \<noteq> nat ?li"
      then have "part_size (?ps ! j) = chunkSize * int (hits 0 ?n partCount j)" using 6 h by blast
      then show False using h by simp
    qed
    moreover have "k = nat ?li"
    proof (rule ccontr)
      assume "k \<noteq> nat ?li"
      then have "part_size (?ps ! k) = chunkSize * int (hits 0 ?n partCount k)" using 6 h by blast
      then show False using h by simp
    qed
    ultimately show "j = k" by simp
  qed
  have 7: "sum_list (map part_size ?ps) = totalSize"
    using v by (simp add: ranges_from_sizes final_sizes_sum)
  have 8: "splitSizeIntoChunkAlignedParts 25 2 10 =
           Some (Inr [\<lparr>start = 0, end' = 10\<rparr>, \<lparr>start = 10, end' = 25\<rparr>])"
    by code_simp
  from 1 2 3 4 5 6 7 8 show ?thesis by blast
qed

text \<open>
  The hypotheses of the amended C2 hold at \<open>(25, 2, 10)\<close>: two parts, the leftover 5 in the part
  at index 1.
\<close>

theorem splitSize_leftover_witness:
  "(1::int) \<le> 2 \<and> (2::int) < 2 ^ 32 \<and> (1::int) \<le> 10 \<and> (10::int) < 25 \<and> (25::int) < 2 ^ 53 \<and>
   (\<exists>parts. splitSizeIntoChunkAlignedParts 25 2 10 = Some (Inr parts)
     \<and> int (length parts) = 2
     \<and> nat (min ((25::int) div 10) (2 - 1)) < length parts
     \<and> part_size (parts ! nat (min ((25::int) div 10) (2 - 1))) =
          10 * int (hits 0 (25 div 10) 2 (nat (min ((25::int) div 10) (2 - 1)))) + 25 mod 10)"
proof -
  have h: "(1::int) \<le> 2" "(2::int) < 2 ^ 32" "(1::int) \<le> 10" "(10::int) < 25" "(25::int) < 2 ^ 53"
    by simp_all
  from splitSize_leftover [OF h] show ?thesis using h by blast
qed

text \<open>
  Claim C2 as stated fails: \<open>(25, 4294967296, 10)\<close> meets its three preconditions and has the
  leftover 5, and the call throws the RangeError of \<^verbatim>\<open>new Array(partCount)\<close>: there is no part
  for the leftover to go to.
\<close>

theorem splitSize_leftover_counterexample:
  "(1::int) \<le> 4294967296 \<and> (1::int) \<le> 10 \<and> (10::int) < 25 \<and> (25::int) mod 10 = 5
   \<and> splitSizeIntoChunkAlignedParts 25 4294967296 10 = Some (Inl RangeError)"
  by (simp add: split_too_many)

text \<open>
  Claim C9, as amended. For safe-integer arguments with \<open>1 \<le> partCount \<le> 4294967295\<close>,
  \<open>chunkSize \<ge> 1\<close> and \<open>totalSize > chunkSize\<close> the list has exactly \<open>partCount\<close> parts, and every
  part at an index from \<open>floor(totalSize / chunkSize) + 1\<close> on is an empty range,
  \<open>start = end\<close>. There is such a part as soon as \<open>floor(totalSize / chunkSize) + 1 < partCount\<close>.
\<close>

theorem splitSize_count:
  assumes "1 \<le> partCount" "partCount < 2 ^ 32" "1 \<le> chunkSize" "chunkSize < totalSize"
    and "totalSize < 2 ^ 53"
  shows "\<exists>parts. splitSizeIntoChunkAlignedParts totalSize partCount chunkSize = Some (Inr parts)
     \<and> int (length parts) = partCount
     \<and> (\<forall>k. totalSize div chunkSize + 1 \<le> int k \<and> int k < partCount
            \<longrightarrow> start (parts ! k) = end' (parts ! k))"
proof -
  let ?ss = "final_sizes totalSize partCount chunkSize"
  let ?ps = "ranges_from 0 ?ss"
  let ?n = "totalSize div chunkSize"
  have v: "1 \<le> partCount" "1 \<le> chunkSize" "chunkSize < totalSize" using assms by simp_all
  have n0: "0 \<le> ?n" using v by (simp add: pos_imp_zdiv_nonneg_iff)
  have len: "length ?ps = nat partCount" by (simp add: ranges_from_length final_sizes_length)
  have 1: "splitSizeIntoChunkAlignedParts totalSize partCount chunkSize = Some (Inr ?ps)"
    using assms by (rule split_valid)
  have 2: "int (length ?ps) = partCount" using v len by simp
  have 3: "\<forall>k. ?n + 1 \<le> int k \<and> int k < partCount \<longrightarrow> start (?ps ! k) = end' (?ps ! k)"
  proof (intro allI impI)
    fix k assume h: "?n + 1 \<le> int k \<and> int k < partCount"
    then have kp: "k < nat partCount" by linarith
    have "?n \<le> int k" "int k < partCount" using h by simp_all
    with n0 have "hits 0 ?n partCount k = 0" by (rule hits_beyond)
    moreover have "int k \<noteq> min ?n (partCount - 1)" using h by simp
    ultimately have "?ss ! k = 0"
      using v kp by (simp add: final_sizes_nth)
    moreover have "part_size (?ps ! k) = ?ss ! k"
      using kp by (simp add: ranges_from_size final_sizes_length)
    ultimately show "start (?ps ! k) = end' (?ps ! k)" by (simp add: part_size_def)
  qed
  from 1 2 3 show ?thesis by blast
qed

text \<open>
  The hypotheses of the amended C9 hold at \<open>(25, 5, 10)\<close>, where the parts at the indices 3 and
  4 are empty.
\<close>

theorem splitSize_count_witness:
  "(1::int) \<le> 5 \<and> (5::int) < 2 ^ 32 \<and> (1::int) \<le> 10 \<and> (10::int) < 25 \<and> (25::int) < 2 ^ 53 \<and>
   (\<exists>parts. splitSizeIntoChunkAlignedParts 25 5 10 = Some (Inr parts)
     \<and> int (length parts) = 5
     \<and> (\<forall>k. (25::int) div 10 + 1 \<le> int k \<and> int k < 5
            \<longrightarrow> start (parts ! k) = end' (parts ! k)))
   \<and> (25::int) div 10 + 1 \<le> int 3 \<and> int 3 < (5::int)"
  using splitSize_count [of 5 10 25] by simp

text \<open>
  Claim C9 as stated fails: at \<open>(100, 4294967296, 10)\<close>, which meets the three preconditions,
  the call returns no list, of \<open>partCount\<close> parts or any other: it throws the RangeError of
  \<^verbatim>\<open>new Array(partCount)\<close>.
\<close>

theorem splitSize_count_counterexample:
  "(1::int) \<le> 4294967296 \<and> (1::int) \<le> 10 \<and> (10::int) < 100
   \<and> (\<nexists>parts. splitSizeIntoChunkAlignedParts 100 4294967296 10 = Some (Inr parts)
              \<and> int (length parts) = 4294967296)"
  by (simp add: split_too_many)

text \<open>
  Claim C6, as amended. For safe-integer arguments the call raises the validation error
  exactly when \<open>partCount < 1\<close>, or \<open>chunkSize < 1\<close>, or \<open>totalSize \<le> chunkSize\<close>. When none of
  the three holds it returns parts exactly when \<open>partCount \<le> 4294967295\<close>, and throws the
  RangeError of \<^verbatim>\<open>new Array(partCount)\<close> otherwise.
\<close>

theorem splitSize_validation:
  assumes "isSafeInteger totalSize" "isSafeInteger partCount" "isSafeInteger chunkSize"
  shows "((\<exists>name. splitSizeIntoChunkAlignedParts totalSize partCount chunkSize
                    = Some (Inl (InvalidArgument name)))
      = (partCount < 1 \<or> chunkSize < 1 \<or> totalSize \<le> chunkSize))
   \<and> ((\<exists>parts. splitSizeIntoChunkAlignedParts totalSize partCount chunkSize = Some (Inr parts))
      = (1 \<le> partCount \<and> partCount < 2 ^ 32 \<and> 1 \<le> chunkSize \<and> chunkSize < totalSize))
   \<and> ((splitSizeIntoChunkAlignedParts totalSize partCount chunkSize = Some (Inl RangeError))
      = (2 ^ 32 \<le> partCount \<and> 1 \<le> chunkSize \<and> chunkSize < totalSize))"
proof -
  have b: "totalSize < 2 ^ 53" "partCount < 2 ^ 53"
    using assms by (simp_all add: isSafeInteger_def MAX_SAFE_INTEGER_def)
  consider (bad) "partCount < 1 \<or> chunkSize < 1 \<or> totalSize \<le> chunkSize"
    | (ok) "1 \<le> partCount" "partCount < 2 ^ 32" "1 \<le> chunkSize" "chunkSize < totalSize"
    | (many) "2 ^ 32 \<le> partCount" "1 \<le> chunkSize" "chunkSize < totalSize"
    by linarith
  then show ?thesis
  proof cases
    case bad
    with assms obtain name where
      "splitSizeIntoChunkAlignedParts totalSize partCount chunkSize = Some (Inl (InvalidArgument name))"
      using split_invalid by blast
    then show ?thesis using bad by auto
  next
    case ok
    then have "splitSizeIntoChunkAlignedParts totalSize partCount chunkSize =
               Some (Inr (ranges_from 0 (final_sizes totalSize partCount chunkSize)))"
      using b by (simp add: split_valid)
    then show ?thesis using ok by auto
  next
    case many
    then have "splitSizeIntoChunkAlignedParts totalSize partCount chunkSize = Some (Inl RangeError)"
      using b by (simp add: split_too_many)
    then show ?thesis using many by auto
  qed
qed

text \<open>
  The amended C6 at one input for each of the three failing preconditions, at a valid one
  and at one with too many parts.
\<close>

theorem splitSize_validation_witness:
  "isSafeInteger 25 \<and> isSafeInteger 0 \<and> isSafeInteger 10 \<and> isSafeInteger 2
   \<and> isSafeInteger 4294967296
   \<and> (\<exists>name. splitSizeIntoChunkAlignedParts 25 0 10 = Some (Inl (InvalidArgument name)))
   \<and> (\<exists>name. splitSizeIntoChunkAlignedParts 25 2 0 = Some (Inl (InvalidArgument name)))
   \<and> (\<exists>name. splitSizeIntoChunkAlignedParts 10 2 10 = Some (Inl (InvalidArgument name)))
   \<and> (\<exists>parts. splitSizeIntoChunkAlignedParts 25 2 10 = Some (Inr parts))
   \<and> splitSizeIntoChunkAlignedParts 25 4294967296 10 = Some (Inl RangeError)"
proof -
  have s: "isSafeInteger 25" "isSafeInteger 0" "isSafeInteger 10" "isSafeInteger 2"
    "isSafeInteger 4294967296"
    by (simp_all add: isSafeInteger_def MAX_SAFE_INTEGER_def)
  show ?thesis
    using splitSize_validation [OF s(1) s(2) s(3)] splitSize_validation [OF s(1) s(4) s(2)]
      splitSize_validation [OF s(3) s(4) s(3)] splitSize_validation [OF s(1) s(4) s(3)]
      splitSize_validation [OF s(1) s(5) s(3)] s
    by simp
qed

text \<open>
  Claim C6 as stated fails: \<open>(100, 4294967296, 10)\<close> meets the three preconditions, and the call
  raises all the same, the RangeError of \<^verbatim>\<open>new Array(partCount)\<close>.
\<close>

theorem splitSize_validation_counterexample:
  "\<not> ((4294967296::int) < 1 \<or> (10::int) < 1 \<or> (100::int) \<le> 10)
   \<and> splitSizeIntoChunkAlignedParts 100 4294967296 10 = Some (Inl RangeError)"
  by (simp add: split_too_many)

section \<open>Properties of the URL algebra\<close>

lemma of_char_up:
  "(of_char (toUpperCase_char x) :: nat) =
     (if 97 \<le> (of_char x :: nat) \<and> (of_char x :: nat) \<le> 122 then of_char x - 32 else of_char x)"
proof -
  have "(of_char x :: nat) < 256" by simp
  then have "(of_char x :: nat) - 32 < 256" by linarith
  then have "((of_char x :: nat) - 32) mod 256 = of_char x - 32" by (rule mod_less)
  then show ?thesis by (simp add: toUpperCase_char_def Let_def)
qed

lemma of_char_low:
  "(of_char (toLowerCase_char x) :: nat) =
     (if 65 \<le> (of_char x :: nat) \<and> (of_char x :: nat) \<le> 90 then of_char x + 32 else of_char x)"
  by (simp add: toLowerCase_char_def Let_def)

lemma char_eq_code: "(a = b) = ((of_char a :: nat) = of_char b)"
  by simp

lemma up_low_arith:
  fixes n m :: nat
  assumes "97 \<le> m" "m \<le> 122"
  shows "((if 97 \<le> n \<and> n \<le> 122 then n - 32 else n) = m - 32)
       = ((if 65 \<le> n \<and> n \<le> 90 then n + 32 else n) = m)"
  using assms by (simp split: if_splits) linarith

lemma up_id_arith:
  fixes n m :: nat
  assumes "m < 65"
  shows "((if 97 \<le> n \<and> n \<le> 122 then n - 32 else n) = m) = (n = m)"
    and "((if 65 \<le> n \<and> n \<le> 90 then n + 32 else n) = m) = (n = m)"
  using assms by (simp_all split: if_splits) linarith+

lemma ci_letter:
  assumes "97 \<le> (of_char c :: nat)" "(of_char c :: nat) \<le> 122"
  shows "(toUpperCase_char x = toUpperCase_char c) = (toLowerCase_char x = c)"
proof -
  have c: "(of_char (toUpperCase_char c) :: nat) = of_char c - 32"
    using assms by (simp add: of_char_up)
  have "(toUpperCase_char x = toUpperCase_char c) =
          ((of_char (toUpperCase_char x) :: nat) = of_char (toUpperCase_char c))"
    by (rule char_eq_code)
  also have "\<dots> = ((of_char (toLowerCase_char x) :: nat) = of_char c)"
    unfolding c of_char_up [of x] of_char_low [of x] using assms by (rule up_low_arith)
  also have "\<dots> = (toLowerCase_char x = c)"
    by (rule char_eq_code [symmetric])
  finally show ?thesis .
qed

lemma ci_other:
  assumes "(of_char c :: nat) < 65"
  shows "(toUpperCase_char x = toUpperCase_char c) = (x = c)"
    and "(toLowerCase_char x = c) = (x = c)"
proof -
  have c: "(of_char (toUpperCase_char c) :: nat) = of_char c"
    using assms by (simp add: of_char_up)
  have "(toUpperCase_char x = toUpperCase_char c) =
          ((of_char (toUpperCase_char x) :: nat) = of_char (toUpperCase_char c))"
    by (rule char_eq_code)
  also have "\<dots> = ((of_char x :: nat) = of_char c)"
    unfolding c of_char_up [of x] using assms by (rule up_id_arith)
  also have "\<dots> = (x = c)"
    by (rule char_eq_code [symmetric])
  finally show "(toUpperCase_char x = toUpperCase_char c) = (x = c)" .
  have "(toLowerCase_char x = c) = ((of_char (toLowerCase_char x) :: nat) = of_char c)"
    by (rule char_eq_code)
  also have "\<dots> = ((of_char x :: nat) = of_char c)"
    unfolding of_char_low [of x] using assms by (rule up_id_arith)
  also have "\<dots> = (x = c)"
    by (rule char_eq_code [symmetric])
  finally show "(toLowerCase_char x = c) = (x = c)" .
qed

lemmas ci_h = ci_letter [of "CHR ''h''", simplified]
lemmas ci_t = ci_letter [of "CHR ''t''", simplified]
lemmas ci_p = ci_letter [of "CHR ''p''", simplified]
lemmas ci_s = ci_letter [of "CHR ''s''", simplified]
lemmas ci_colon = ci_other [of "CHR '':''", simplified]
lemmas ci_slash = ci_other [of "CHR ''/''", simplified]


lemma map_take_Cons:
  "(map f (take (Suc n) xs) = y # ys) = (\<exists>z zs. xs = z # zs \<and> f z = y \<and> map f (take n zs) = ys)"
  by (cases xs) auto

lemma map_take_Nil: "(map f (take n xs) = []) = (n = 0 \<or> xs = [])"
  by (cases xs; cases n) auto


lemma test_Cat_Chr:
  "(re_match (Cat (Chr c) r) s \<noteq> []) =
     (\<exists>x xs. s = x # xs \<and> toUpperCase_char x = toUpperCase_char c \<and> re_match r xs \<noteq> [])"
  by (cases s) auto

lemma test_Cat_Opt:
  "(re_match (Cat (Opt a) r) s \<noteq> []) = (re_match (Cat a r) s \<noteq> [] \<or> re_match r s \<noteq> [])"
  by simp

lemma test_Opt: "(re_match (Opt a) s \<noteq> []) = True"
  by simp

lemma scheme_regex_spec: "re_test_anchored scheme_regex s = matches_scheme_spec s"
proof -
  have L: "re_test_anchored scheme_regex s =
     (\<exists>a b c d rest. s = a # b # c # d # rest
        \<and> toLowerCase_char a = CHR ''h'' \<and> toLowerCase_char b = CHR ''t''
        \<and> toLowerCase_char c = CHR ''t'' \<and> toLowerCase_char d = CHR ''p''
        \<and> ((\<exists>e r. rest = e # CHR '':'' # r \<and> toLowerCase_char e = CHR ''s'')
             \<or> (\<exists>r. rest = CHR '':'' # r)))"
    unfolding re_test_anchored_def scheme_regex_def
    apply (simp only: test_Cat_Chr test_Cat_Opt test_Opt ci_h ci_t ci_p ci_s ci_colon ci_slash)
    apply auto
    done
  have R: "matches_scheme_spec s =
     (\<exists>a b c d rest. s = a # b # c # d # rest
        \<and> toLowerCase_char a = CHR ''h'' \<and> toLowerCase_char b = CHR ''t''
        \<and> toLowerCase_char c = CHR ''t'' \<and> toLowerCase_char d = CHR ''p''
        \<and> ((\<exists>e r. rest = e # CHR '':'' # r \<and> toLowerCase_char e = CHR ''s'')
             \<or> (\<exists>r. rest = CHR '':'' # r)))"
    unfolding matches_scheme_spec_def toLowerCase_def
    by (auto simp: eval_nat_numeral map_take_Cons map_take_Nil ci_colon ci_slash)
  show ?thesis unfolding L R ..
qed

lemma localhost_no_scheme: "\<not> matches_scheme_spec ''localhost''"
  by (simp add: matches_scheme_spec_def toLowerCase_def toLowerCase_char_def)

text \<open>
  Claim C5. \<^verbatim>\<open>ensureUrlPrefix\<close> is the function the spec describes: an input that starts,
  in any case, with \<^verbatim>\<open>http:\<close> or \<^verbatim>\<open>https:\<close> (the \<^verbatim>\<open>//\<close> being optional) is returned unchanged,
  \<^verbatim>\<open>localhost\<close> becomes \<^verbatim>\<open>http://localhost/\<close>, and any other input gets \<^verbatim>\<open>https://\<close> in front.
  The three examples of the spec are instances.
\<close>

theorem ensureUrlPrefix_spec:
  "ensureUrlPrefix s = ensureSchemePrefix_spec s
   \<and> ensureUrlPrefix ''localhost'' = ''http://localhost/''
   \<and> ensureUrlPrefix ''example.com'' = ''https://example.com''
   \<and> ensureUrlPrefix ''http://x'' = ''http://x''"
proof -
  have 1: "ensureUrlPrefix s = ensureSchemePrefix_spec s" for s
    using localhost_no_scheme
    by (auto simp: ensureUrlPrefix_def ensureSchemePrefix_spec_def scheme_regex_spec)
  have 2: "ensureSchemePrefix_spec ''localhost'' = ''http://localhost/''"
    by (simp add: ensureSchemePrefix_spec_def localhost_no_scheme)
  have 3: "ensureSchemePrefix_spec ''example.com'' = ''https://example.com''"
    by (simp add: ensureSchemePrefix_spec_def matches_scheme_spec_def toLowerCase_def
        toLowerCase_char_def)
  have 4: "ensureSchemePrefix_spec ''http://x'' = ''http://x''"
    by (simp add: ensureSchemePrefix_spec_def matches_scheme_spec_def toLowerCase_def
        toLowerCase_char_def)
  show ?thesis using 2 3 4 by (simp add: 1)
qed

text \<open>
  C5 at an input with an upper-case scheme and no slashes, and at a bare host.
\<close>

theorem ensureUrlPrefix_spec_witness:
  "ensureUrlPrefix ''HTTPS:portal.example'' = ''HTTPS:portal.example''
   \<and> ensureSchemePrefix_spec ''HTTPS:portal.example'' = ''HTTPS:portal.example''
   \<and> ensureUrlPrefix ''portal.example'' = ''https://portal.example''"
proof -
  have a: "ensureSchemePrefix_spec ''HTTPS:portal.example'' = ''HTTPS:portal.example''"
    by code_simp
  have b: "ensureSchemePrefix_spec ''portal.example'' = ''https://portal.example''"
    by code_simp
  show ?thesis
    using ensureUrlPrefix_spec [of "''HTTPS:portal.example''"]
      ensureUrlPrefix_spec [of "''portal.example''"] a b
    by simp
qed

lemma ensureUrl_eq:
  "ensureUrl u = (if startsWith u ''http://'' \<or> startsWith u ''https://'' then u else ''https://'' @ u)"
  by (simp add: ensureUrl_def ensurePrefix_def)

text \<open>
  Claim C7, as amended. For a non-empty list of parts \<^verbatim>\<open>makeUrl\<close> returns \<^verbatim>\<open>ensureUrl\<close> of the
  left fold of the parts through the join, where \<^verbatim>\<open>ensureUrl\<close> returns its argument unchanged
  when it starts with \<^verbatim>\<open>http://\<close> or \<^verbatim>\<open>https://\<close> (in lower case) and puts \<^verbatim>\<open>https://\<close> in front
  otherwise; for the single part \<^verbatim>\<open>localhost\<close> the result is \<^verbatim>\<open>https://localhost\<close>.
\<close>

theorem makeUrl_ensureUrl:
  assumes "args \<noteq> []"
  shows "makeUrl urljoin args = Inr (ensureUrl (foldl urljoin (hd args) (tl args)))
     \<and> ensureUrl u = (if startsWith u ''http://'' \<or> startsWith u ''https://'' then u
                      else ''https://'' @ u)
     \<and> makeUrl urljoin [''localhost''] = Inr ''https://localhost''"
proof -
  obtain x xs where a: "args = x # xs" using assms by (cases args) auto
  have 1: "makeUrl urljoin args = Inr (ensureUrl (foldl urljoin (hd args) (tl args)))"
    by (simp add: a makeUrl_def)
  have 2: "makeUrl urljoin [''localhost''] = Inr ''https://localhost''"
    by (simp add: makeUrl_def ensureUrl_def ensurePrefix_def startsWith_def)
  show ?thesis using 1 2 ensureUrl_eq by simp
qed

text \<open>
  The amended C7 at three parts.
\<close>

theorem makeUrl_ensureUrl_witness:
  "[''portal.example'', ''s5'', ''upload''] \<noteq> []
   \<and> makeUrl slash_join [''portal.example'', ''s5'', ''upload'']
       = Inr ''https://portal.example/s5/upload''"
  using makeUrl_ensureUrl [of "[''portal.example'', ''s5'', ''upload'']" slash_join "''x''"]
  by (simp add: slash_join_def ensureUrl_def ensurePrefix_def startsWith_def)

text \<open>
  Claim C7 as stated fails: for the single part \<^verbatim>\<open>localhost\<close> the result of \<^verbatim>\<open>makeUrl\<close> is
  \<^verbatim>\<open>https://localhost\<close>, not \<^verbatim>\<open>ensureUrlPrefix\<close> of the fold, which is \<^verbatim>\<open>http://localhost/\<close>.
  With one part the join is never called.
\<close>

theorem makeUrl_localhost_counterexample:
  "makeUrl slash_join [''localhost''] = Inr ''https://localhost''
   \<and> makeUrl slash_join [''localhost'']
       \<noteq> Inr (ensureUrlPrefix (foldl slash_join (hd [''localhost'']) (tl [''localhost''])))"
  by (simp add: makeUrl_def ensureUrl_def ensurePrefix_def startsWith_def ensureUrlPrefix_def)

text \<open>
  Claim C8. With no parts \<^verbatim>\<open>makeUrl\<close> fails with the validation error for \<^verbatim>\<open>args\<close>, whatever
  the join is.
\<close>

theorem makeUrl_empty:
  "makeUrl urljoin [] = Inl (InvalidArgument ''args'')"
  by (simp add: makeUrl_def throwValidationError_def)

text \<open>
  C8 with the one-slash join.
\<close>

theorem makeUrl_empty_witness:
  "makeUrl slash_join [] = Inl (InvalidArgument ''args'')"
  using makeUrl_empty [of slash_join] by simp

section \<open>Properties of the domain resolver\<close>









lemma trimUriPrefix_http: "trimUriPrefix (''http://'' @ rest) ''http://'' = rest"
  by (simp add: trimUriPrefix_def startsWith_def)

lemma trimUriPrefix_https: "trimUriPrefix (''https://'' @ rest) ''http://'' = ''https://'' @ rest"
  by (simp add: trimUriPrefix_def startsWith_def)

lemma matches_https: "matches_scheme_spec (''https://'' @ rest)"
  by (simp add: matches_scheme_spec_def toLowerCase_def toLowerCase_char_def)

text \<open>
  Claim C10, as amended. Let the portal be \<^verbatim>\<open>http://\<close> followed by \<open>rest\<close>, where \<open>rest\<close> is not
  \<^verbatim>\<open>localhost\<close> and does not itself start with \<^verbatim>\<open>http:\<close> or \<^verbatim>\<open>https:\<close> in any case. Then
  \<^verbatim>\<open>getFullDomainUrlForPortal\<close> returns for it what it returns for the portal \<^verbatim>\<open>https://\<close>
  followed by \<open>rest\<close>, for every domain and every URL implementation: both portals are
  normalised to the latter. For the portal \<^verbatim>\<open>http://localhost\<close> the normalised portal is
  \<^verbatim>\<open>http://localhost/\<close>: the scheme stays \<^verbatim>\<open>http\<close>.
\<close>

theorem getFull_http_upgrade:
  assumes "rest \<noteq> ''localhost''" and "\<not> matches_scheme_spec rest"
  shows "getFullDomainUrlForPortal api (''http://'' @ rest) d
           = getFullDomainUrlForPortal api (''https://'' @ rest) d
     \<and> ensureUrlPrefix (trimUriPrefix (''http://'' @ rest) ''http://'') = ''https://'' @ rest
     \<and> ensureUrlPrefix (trimUriPrefix ''http://localhost'' ''http://'') = ''http://localhost/''"
proof -
  have a: "ensureUrlPrefix (trimUriPrefix (''http://'' @ rest) ''http://'') = ''https://'' @ rest"
    unfolding trimUriPrefix_http using assms by (simp add: ensureUrlPrefix_def scheme_regex_spec)
  have b: "ensureUrlPrefix (trimUriPrefix (''https://'' @ rest) ''http://'') = ''https://'' @ rest"
    unfolding trimUriPrefix_https using matches_https [of rest]
    by (simp add: ensureUrlPrefix_def scheme_regex_spec)
  have c: "ensureUrlPrefix (trimUriPrefix ''http://localhost'' ''http://'') = ''http://localhost/''"
    unfolding trimUriPrefix_http [of "''localhost''", simplified] by (simp add: ensureUrlPrefix_def)
  have "getFullDomainUrlForPortal api (''http://'' @ rest) d
           = getFullDomainUrlForPortal api (''https://'' @ rest) d"
    unfolding getFullDomainUrlForPortal_def a b ..
  then show ?thesis using a c by simp
qed

text \<open>
  The amended C10 at the portal \<^verbatim>\<open>http://portal.example\<close>: the resolved URL is the one of the
  spec's example for \<^verbatim>\<open>https://portal.example\<close>.
\<close>

theorem getFull_http_upgrade_witness:
  "''portal.example'' \<noteq> ''localhost'' \<and> \<not> matches_scheme_spec ''portal.example''
   \<and> getFullDomainUrlForPortal http_url_api ''http://portal.example'' ''abc.hns/dir/file''
       = Inr ''https://abc.hns.portal.example/dir/file''
   \<and> getFullDomainUrlForPortal http_url_api ''https://portal.example'' ''abc.hns/dir/file''
       = Inr ''https://abc.hns.portal.example/dir/file''"
proof -
  have h: "''portal.example'' \<noteq> ''localhost''" "\<not> matches_scheme_spec ''portal.example''"
    by code_simp+
  have e: "getFullDomainUrlForPortal http_url_api ''https://portal.example'' ''abc.hns/dir/file''
       = Inr ''https://abc.hns.portal.example/dir/file''"
    by code_simp
  from getFull_http_upgrade [OF h, of http_url_api "''abc.hns/dir/file''"] h e
  show ?thesis by simp
qed

text \<open>
  Claim C10 as stated fails at the portal \<^verbatim>\<open>http://localhost\<close>: stripped of \<^verbatim>\<open>http://\<close> it is
  \<^verbatim>\<open>localhost\<close>, which \<^verbatim>\<open>ensureUrlPrefix\<close> turns into \<^verbatim>\<open>http://localhost/\<close>; the resolved URL for
  the domain \<^verbatim>\<open>abc\<close> keeps the scheme \<^verbatim>\<open>http\<close> and differs from the one for
  \<^verbatim>\<open>https://localhost\<close>.
\<close>

theorem getFull_http_localhost_counterexample:
  "getFullDomainUrlForPortal http_url_api ''http://localhost'' ''abc'' = Inr ''http://abc.localhost''
   \<and> getFullDomainUrlForPortal http_url_api ''https://localhost'' ''abc'' = Inr ''https://abc.localhost''
   \<and> getFullDomainUrlForPortal http_url_api ''http://localhost'' ''abc''
       \<noteq> getFullDomainUrlForPortal http_url_api ''https://localhost'' ''abc''"
proof -
  have a: "getFullDomainUrlForPortal http_url_api ''http://localhost'' ''abc'' = Inr ''http://abc.localhost''"
    by code_simp
  have b: "getFullDomainUrlForPortal http_url_api ''https://localhost'' ''abc'' = Inr ''https://abc.localhost''"
    by code_simp
  show ?thesis unfolding a b by simp
qed




































section \<open>Properties of the upload orchestrator\<close>

lemma spread_as_custom: "spread opts (as_custom o2) = o2"
  by (simp add: spread_def as_custom_def override_def)

text \<open>
  Claim C4. With \<open>opts\<close> the resolved options (the defaults, then the client's options, then
  the call's), \<^verbatim>\<open>uploadFile\<close> hands the file to \<^verbatim>\<open>uploadSmallFile\<close> exactly when
  \<open>file.size < opts.largeFileSize * opts.chunkSizeMultiplier\<close> and to \<^verbatim>\<open>uploadLargeFile\<close>
  otherwise; the small path has the transport execute one request, a \<^verbatim>\<open>post\<close> to
  \<open>opts.endpointUpload\<close> whose form data has the one field \<^verbatim>\<open>file\<close>. With \<open>largeFileSize\<close> 40 MiB
  (41943040 bytes) and \<open>chunkSizeMultiplier\<close> 1, a file of 100 MiB (104857600 bytes) takes the
  large path and a file of 10 MiB (10485760 bytes) the small one.
\<close>

theorem uploadFile_path:
  "(let opts = spread (spread DEFAULT_UPLOAD_OPTIONS this_customOptions) customOptions in
     uploadFile this_customOptions f customOptions =
       (if file_size f < largeFileSize opts * chunkSizeMultiplier opts
        then UploadSmallFile f opts else UploadLargeFile f opts)
     \<and> (\<exists>d. uploadSmallFile mime this_customOptions f opts =
            [\<lparr>endpointPath = endpointUpload opts, req_method = ''post'', data = d\<rparr>]
          \<and> map fst d = [PORTAL_FILE_FIELD_NAME]))
   \<and> (\<forall>name ty. uploadFile no_options \<lparr>file_name = name, file_size = 104857600, file_type = ty\<rparr>
          (no_options\<lparr>c_largeFileSize := Some (41943040), c_chunkSizeMultiplier := Some 1\<rparr>)
        = UploadLargeFile \<lparr>file_name = name, file_size = 104857600, file_type = ty\<rparr>
            (DEFAULT_UPLOAD_OPTIONS\<lparr>largeFileSize := 41943040, chunkSizeMultiplier := 1\<rparr>))
   \<and> (\<forall>name ty. uploadFile no_options \<lparr>file_name = name, file_size = 10485760, file_type = ty\<rparr>
          (no_options\<lparr>c_largeFileSize := Some (41943040), c_chunkSizeMultiplier := Some 1\<rparr>)
        = UploadSmallFile \<lparr>file_name = name, file_size = 10485760, file_type = ty\<rparr>
            (DEFAULT_UPLOAD_OPTIONS\<lparr>largeFileSize := 41943040, chunkSizeMultiplier := 1\<rparr>))"
proof -
  have 1: "spread (spread DEFAULT_UPLOAD_OPTIONS no_options)
             (no_options\<lparr>c_largeFileSize := Some (41943040), c_chunkSizeMultiplier := Some 1\<rparr>)
           = DEFAULT_UPLOAD_OPTIONS\<lparr>largeFileSize := 41943040, chunkSizeMultiplier := 1\<rparr>"
    by (simp add: spread_def no_options_def override_def DEFAULT_UPLOAD_OPTIONS_def)
  have 2: "uploadFile this_customOptions f customOptions =
       (if file_size f < largeFileSize opts * chunkSizeMultiplier opts
        then UploadSmallFile f opts else UploadLargeFile f opts)"
    if "opts = spread (spread DEFAULT_UPLOAD_OPTIONS this_customOptions) customOptions" for opts
    using that by (simp add: uploadFile_def Let_def)
  have 3: "\<exists>d. uploadSmallFile mime this_customOptions f opts =
            [\<lparr>endpointPath = endpointUpload opts, req_method = ''post'', data = d\<rparr>]
          \<and> map fst d = [PORTAL_FILE_FIELD_NAME]" for opts
    by (simp add: uploadSmallFile_def uploadSmallFileRequest_def spread_as_custom Let_def)
  have 4: "uploadFile no_options \<lparr>file_name = name, file_size = 104857600, file_type = ty\<rparr>
          (no_options\<lparr>c_largeFileSize := Some 41943040, c_chunkSizeMultiplier := Some 1\<rparr>)
        = UploadLargeFile \<lparr>file_name = name, file_size = 104857600, file_type = ty\<rparr>
            (DEFAULT_UPLOAD_OPTIONS\<lparr>largeFileSize := 41943040, chunkSizeMultiplier := 1\<rparr>)" for name ty
    by (simp add: uploadFile_def Let_def 1)
  have 5: "uploadFile no_options \<lparr>file_name = name, file_size = 10485760, file_type = ty\<rparr>
          (no_options\<lparr>c_largeFileSize := Some 41943040, c_chunkSizeMultiplier := Some 1\<rparr>)
        = UploadSmallFile \<lparr>file_name = name, file_size = 10485760, file_type = ty\<rparr>
            (DEFAULT_UPLOAD_OPTIONS\<lparr>largeFileSize := 41943040, chunkSizeMultiplier := 1\<rparr>)" for name ty
    by (simp add: uploadFile_def Let_def 1)
  show ?thesis
    unfolding Let_def using 2 3 4 5 by blast
qed

text \<open>
  C4 at the default options, whose threshold is 3 times 40 MiB, 125829120 bytes: one byte
  below it the path is the small one, at it the large one.
\<close>

theorem uploadFile_path_witness:
  "uploadFile no_options \<lparr>file_name = ''a.bin'', file_size = 125829119, file_type = ''''\<rparr> no_options
     = UploadSmallFile \<lparr>file_name = ''a.bin'', file_size = 125829119, file_type = ''''\<rparr> DEFAULT_UPLOAD_OPTIONS
   \<and> uploadFile no_options \<lparr>file_name = ''a.bin'', file_size = 125829120, file_type = ''''\<rparr> no_options
     = UploadLargeFile \<lparr>file_name = ''a.bin'', file_size = 125829120, file_type = ''''\<rparr> DEFAULT_UPLOAD_OPTIONS"
proof -
  have 1: "spread (spread DEFAULT_UPLOAD_OPTIONS no_options) no_options = DEFAULT_UPLOAD_OPTIONS"
    by (simp add: spread_def no_options_def override_def)
  have 2: "largeFileSize DEFAULT_UPLOAD_OPTIONS * chunkSizeMultiplier DEFAULT_UPLOAD_OPTIONS = 125829120"
    by (simp add: DEFAULT_UPLOAD_OPTIONS_def TUS_CHUNK_SIZE_def DEFAULT_TUS_CHUNK_SIZE_MULTIPLIER_def)
  show ?thesis
    using uploadFile_path [of no_options no_options "\<lparr>file_name = ''a.bin'', file_size = 125829119, file_type = ''''\<rparr>" "\<lambda>f. ''''"]
      uploadFile_path [of no_options no_options "\<lparr>file_name = ''a.bin'', file_size = 125829120, file_type = ''''\<rparr>" "\<lambda>f. ''''"]
    by (simp add: Let_def 1 2)
qed

end
